theory Spec2Isabelle
  imports Complex_Main
begin

section \<open>Python values and exceptions\<close>

text \<open>
  The repository is Python. Arguments whose run-time type the code inspects
  (\<^verbatim>\<open>isinstance(x, (int, np.integer))\<close>, \<^verbatim>\<open>x is None\<close>) are modelled by a small
  datatype of Python values; numbers without NaN are reals, so that \<^verbatim>\<open>0 == 0.0\<close>
  holds as in Python. Exceptions are values of the type \<open>error\<close>; a call that may raise
  returns \<open>error + 'a\<close> with \<open>Inl\<close> for the exception.
\<close>

datatype pyval = PyNone | PyInt int | PyFloat real | PyStr string

datatype error =
    PulseError
  | PulseCompilerError
  | TypeError
  | AttributeError
  | IndexError

text \<open>\<^verbatim>\<open>isinstance(x, (int, np.integer))\<close>\<close>

fun is_int :: "pyval \<Rightarrow> bool" where
  "is_int (PyInt _) = True"
| "is_int _ = False"

text \<open>
  \<^verbatim>\<open>x < 0\<close> for a Python value: an integer or a float compares with \<open>0\<close>; \<^verbatim>\<open>None < 0\<close>
  and \<^verbatim>\<open>'abc' < 0\<close> raise \<^verbatim>\<open>TypeError\<close> in Python 3.
\<close>

fun py_lt0 :: "pyval \<Rightarrow> error + bool" where
  "py_lt0 (PyInt i) = Inr (i < 0)"
| "py_lt0 (PyFloat r) = Inr (r < 0)"
| "py_lt0 PyNone = Inl TypeError"
| "py_lt0 (PyStr _) = Inl TypeError"

section \<open>Instruction model (pulse\_ir.py)\<close>

record 'o BaseIRInstruction =
  instr_duration :: pyval
  instr_operand :: 'o
  instr_t0 :: pyval

text \<open>
  \<^verbatim>\<open>BaseIRInstruction.__init__\<close>:
  \<^verbatim>\<open>
  if not isinstance(duration, (int, np.integer)) or duration < 0:
      raise PulseError("duration must be a non-negative integer.")
  if t0 is not None and not isinstance(t0, (int, np.integer)) or t0 < 0:
      raise PulseError("t0 must be a non-negative integer.")
  \<close>
  Python parses the second condition as \<^verbatim>\<open>(A and B) or (t0 < 0)\<close>; \<open>or\<close> evaluates its
  right operand only when the left one is false.
\<close>

definition BaseIRInstruction_init ::
  "pyval \<Rightarrow> 'o \<Rightarrow> pyval \<Rightarrow> error + 'o BaseIRInstruction" where
  "BaseIRInstruction_init duration operand t0 =
    (case (if \<not> is_int duration then Inr True else py_lt0 duration) of
       Inl e \<Rightarrow> Inl e
     | Inr True \<Rightarrow> Inl PulseError
     | Inr False \<Rightarrow>
        (case (if t0 \<noteq> PyNone \<and> \<not> is_int t0 then Inr True else py_lt0 t0) of
           Inl e \<Rightarrow> Inl e
         | Inr True \<Rightarrow> Inl PulseError
         | Inr False \<Rightarrow>
             Inr \<lparr> instr_duration = duration, instr_operand = operand, instr_t0 = t0 \<rparr>))"

section \<open>Addressing model (logical\_elements\_frames.py)\<close>

text \<open>
  Python's built-in \<^verbatim>\<open>hash\<close> is not part of the repository. It is a parameter of the
  model: one function per kind of hashed value, the hash of a tuple being a function
  of the hashes of its components, as in CPython.
\<close>

record py_hash =
  hash_str :: "string \<Rightarrow> int"
  hash_num :: "real \<Rightarrow> int"
  hash_none :: int
  hash_tuple :: "int list \<Rightarrow> int"

text \<open>Decimal rendering of an integer, as an f-string does.\<close>

fun digit_char :: "nat \<Rightarrow> char" where
  "digit_char n = char_of (48 + n)"

function str_nat :: "nat \<Rightarrow> string" where
  "str_nat n = (if n < 10 then [digit_char n] else str_nat (n div 10) @ [digit_char (n mod 10)])"
  by pat_completeness auto
termination
  by (relation "measure id") auto

definition str_int :: "int \<Rightarrow> string" where
  "str_int i = (if i < 0 then CHR ''-'' # str_nat (nat (- i)) else str_nat (nat i))"

subsection \<open>Logical elements\<close>

datatype LogicalElement = Qubit int | Coupler "int \<times> int"

text \<open>\<^verbatim>\<open>Qubit._validate_index\<close> and \<^verbatim>\<open>Coupler._validate_index\<close>, run by the constructors.\<close>

definition Qubit_init :: "pyval \<Rightarrow> error + LogicalElement" where
  "Qubit_init v = (case v of PyInt i \<Rightarrow> if i < 0 then Inl PulseError else Inr (Qubit i)
                   | _ \<Rightarrow> Inl PulseError)"

definition Coupler_init :: "pyval \<Rightarrow> pyval \<Rightarrow> error + LogicalElement" where
  "Coupler_init v w =
     (case (v, w) of
        (PyInt i, PyInt j) \<Rightarrow> if i < 0 \<or> j < 0 then Inl PulseError else Inr (Coupler (i, j))
      | _ \<Rightarrow> Inl PulseError)"

fun LogicalElement_name :: "LogicalElement \<Rightarrow> string" where
  "LogicalElement_name (Qubit i) = ''Q'' @ str_int i"
| "LogicalElement_name (Coupler (i, j)) =
     ''Coupler('' @ str_int i @ '', '' @ str_int j @ '')''"

text \<open>
  \<^verbatim>\<open>LogicalElement.__eq__\<close>: \<^verbatim>\<open>type(self) is type(other) and self._index == other._index\<close>.
\<close>

fun LogicalElement_eq :: "LogicalElement \<Rightarrow> LogicalElement \<Rightarrow> bool" where
  "LogicalElement_eq (Qubit i) (Qubit j) = (i = j)"
| "LogicalElement_eq (Coupler p) (Coupler q) = (p = q)"
| "LogicalElement_eq _ _ = False"

text \<open>\<^verbatim>\<open>LogicalElement.__hash__\<close> returns \<^verbatim>\<open>hash(self.name)\<close>, stored at construction.\<close>

definition LogicalElement_hash :: "py_hash \<Rightarrow> LogicalElement \<Rightarrow> int" where
  "LogicalElement_hash H l = hash_str H (LogicalElement_name l)"

subsection \<open>Frames\<close>

text \<open>
  A \<open>GenericFrame\<close> stores the constructor's arguments as they are: \<open>_phase\<close> is
  \<open>None\<close> when the argument is omitted (\<^verbatim>\<open>phase: float = None\<close>).
\<close>

datatype Frame =
    QubitFrame int
  | MeasurementFrame int
  | GenericFrame (gf_name: string) (gf_frequency: real) (gf_phase: "real option")

text \<open>The constructor; an omitted \<open>phase\<close> is the default \<open>None\<close>.\<close>

definition GenericFrame_init :: "string \<Rightarrow> real \<Rightarrow> real option \<Rightarrow> Frame" where
  "GenericFrame_init name frequency phase = GenericFrame name frequency phase"

definition QubitFrame_init :: "pyval \<Rightarrow> error + Frame" where
  "QubitFrame_init v = (case v of PyInt i \<Rightarrow> if i < 0 then Inl PulseError else Inr (QubitFrame i)
                        | _ \<Rightarrow> Inl PulseError)"

definition MeasurementFrame_init :: "pyval \<Rightarrow> error + Frame" where
  "MeasurementFrame_init v =
     (case v of PyInt i \<Rightarrow> if i < 0 then Inl PulseError else Inr (MeasurementFrame i)
      | _ \<Rightarrow> Inl PulseError)"

text \<open>The attribute \<open>_name\<close> that \<^verbatim>\<open>Frame.__init__\<close> stores.\<close>

fun Frame_name :: "Frame \<Rightarrow> string" where
  "Frame_name (QubitFrame i) = ''QubitFrame'' @ str_int i"
| "Frame_name (MeasurementFrame i) = ''MeasurementFrame'' @ str_int i"
| "Frame_name (GenericFrame n f p) = n"

text \<open>The property \<^verbatim>\<open>GenericFrame.phase\<close>: \<^verbatim>\<open>0 if self._phase is None else self._phase\<close>.\<close>

definition phase :: "Frame \<Rightarrow> real" where
  "phase fr = (case gf_phase fr of None \<Rightarrow> 0 | Some p \<Rightarrow> p)"

text \<open>
  \<^verbatim>\<open>x == y\<close> on frames calls the \<^verbatim>\<open>__eq__\<close> of the class of \<open>x\<close>.
  \<^verbatim>\<open>GenericFrame.__eq__\<close>:
  \<^verbatim>\<open>type(self) is type(other) and self._name == other._name
      and self._frequency == other._frequency and self._phase == other._phase\<close>;
  \<^verbatim>\<open>Frame.__eq__\<close> (inherited by the two qubit frames):
  \<^verbatim>\<open>type(self) is type(other) and self._name == other._name\<close>.
\<close>

fun Frame_eq :: "Frame \<Rightarrow> Frame \<Rightarrow> bool" where
  "Frame_eq (GenericFrame n f p) (GenericFrame n' f' p') = (n = n' \<and> f = f' \<and> p = p')"
| "Frame_eq (QubitFrame i) (QubitFrame j) =
     (Frame_name (QubitFrame i) = Frame_name (QubitFrame j))"
| "Frame_eq (MeasurementFrame i) (MeasurementFrame j) =
     (Frame_name (MeasurementFrame i) = Frame_name (MeasurementFrame j))"
| "Frame_eq _ _ = False"

text \<open>
  \<^verbatim>\<open>__hash__\<close>: \<^verbatim>\<open>hash((name, frequency, phase))\<close> for a generic frame, \<^verbatim>\<open>hash(name)\<close>
  for the others.
\<close>

fun Frame_hash :: "py_hash \<Rightarrow> Frame \<Rightarrow> int" where
  "Frame_hash H (GenericFrame n f p) =
     hash_tuple H [hash_str H n, hash_num H f,
                   (case p of None \<Rightarrow> hash_none H | Some x \<Rightarrow> hash_num H x)]"
| "Frame_hash H fr = hash_str H (Frame_name fr)"

subsection \<open>Mixed frames\<close>

text \<open>
  \<open>CRMixedFrame\<close> is a subclass of \<open>MixedFrame\<close> whose constructor only calls
  \<^verbatim>\<open>super().__init__(logical_element=qubit, frame=qubit_frame)\<close>. The class of the
  object is kept in the model, so that what depends on it is visible.
\<close>

datatype mixed_frame_class = Class_MixedFrame | Class_CRMixedFrame

record MixedFrame =
  mf_class :: mixed_frame_class
  mf_logical_element :: LogicalElement
  mf_frame :: Frame

definition MixedFrame_init :: "LogicalElement \<Rightarrow> Frame \<Rightarrow> MixedFrame" where
  "MixedFrame_init l f = \<lparr> mf_class = Class_MixedFrame, mf_logical_element = l, mf_frame = f \<rparr>"

definition CRMixedFrame_init :: "LogicalElement \<Rightarrow> Frame \<Rightarrow> MixedFrame" where
  "CRMixedFrame_init qubit qubit_frame =
     (MixedFrame_init qubit qubit_frame) \<lparr> mf_class := Class_CRMixedFrame \<rparr>"

text \<open>
  \<^verbatim>\<open>MixedFrame.__eq__\<close>:
  \<^verbatim>\<open>self._logical_element == other._logical_element and self._frame == other._frame\<close>.
\<close>

definition MixedFrame_eq :: "MixedFrame \<Rightarrow> MixedFrame \<Rightarrow> bool" where
  "MixedFrame_eq a b =
     (LogicalElement_eq (mf_logical_element a) (mf_logical_element b)
      \<and> Frame_eq (mf_frame a) (mf_frame b))"

text \<open>\<^verbatim>\<open>MixedFrame.__hash__\<close>: \<^verbatim>\<open>hash((self._logical_element, self._frame))\<close>.\<close>

definition MixedFrame_hash :: "py_hash \<Rightarrow> MixedFrame \<Rightarrow> int" where
  "MixedFrame_hash H m =
     hash_tuple H [LogicalElement_hash H (mf_logical_element m), Frame_hash H (mf_frame m)]"

section \<open>The legacy tree container (pulse\_ir.py)\<close>

text \<open>
  The operand of an instruction: a pulse (\<open>SymbolicPulse\<close> or \<open>Waveform\<close>, of which
  only the attribute \<open>duration\<close> is read here) or a plain Python value.
\<close>

datatype operand = Pulse pyval | Value pyval

text \<open>
  Modelled from the spec: the alignment kinds (\<open>qiskit.pulse.transforms\<close>) are not
  among the source files. The function of a custom alignment is kept as an identifier.
\<close>

datatype AlignmentKind =
    AlignLeft
  | AlignRight
  | AlignSequential
  | AlignEquispaced nat
  | AlignFunc nat nat

record GenericInstruction = "operand BaseIRInstruction" +
  instruction_type :: string
  logical_element :: "LogicalElement option"
  frame :: "Frame option"

record AcquireInstruction = "operand BaseIRInstruction" +
  qubit :: LogicalElement
  memory_slot :: nat

definition allowed_types :: "string list" where
  "allowed_types =
     [''Play'', ''Delay'', ''SetFrequency'', ''ShiftFrequency'', ''SetPhase'', ''ShiftPhase'']"

text \<open>\<^verbatim>\<open>GenericInstruction._validate_instruction\<close>, which returns the duration.\<close>

definition validate_instruction ::
  "string \<Rightarrow> operand \<Rightarrow> LogicalElement option \<Rightarrow> Frame option \<Rightarrow> error + pyval" where
  "validate_instruction ty opnd le fr =
     (if ty \<notin> set allowed_types then Inl PulseError
      else if ty = ''Delay'' then
        (case opnd of
           Value (PyInt i) \<Rightarrow>
             if i < 0 then Inl PulseError
             else if le = None then Inl PulseError
             else Inr (PyInt i)
         | _ \<Rightarrow> Inl PulseError)
      else if ty = ''Play'' then
        (case opnd of
           Pulse d \<Rightarrow> if le = None \<or> fr = None then Inl PulseError else Inr d
         | _ \<Rightarrow> Inl PulseError)
      else
        (case opnd of
           Value (PyInt i) \<Rightarrow> if fr = None then Inl PulseError else Inr (PyInt 0)
         | Value (PyFloat r) \<Rightarrow> if fr = None then Inl PulseError else Inr (PyInt 0)
         | _ \<Rightarrow> Inl PulseError))"

text \<open>\<^verbatim>\<open>GenericInstruction.__init__\<close>\<close>

definition GenericInstruction_init ::
  "string \<Rightarrow> operand \<Rightarrow> LogicalElement option \<Rightarrow> Frame option \<Rightarrow> pyval
   \<Rightarrow> error + GenericInstruction" where
  "GenericInstruction_init ty opnd le fr t0 =
     (case validate_instruction ty opnd le fr of
        Inl e \<Rightarrow> Inl e
      | Inr duration \<Rightarrow>
         (case BaseIRInstruction_init duration opnd t0 of
            Inl e \<Rightarrow> Inl e
          | Inr b \<Rightarrow>
              Inr \<lparr> instr_duration = instr_duration b, instr_operand = instr_operand b,
                    instr_t0 = instr_t0 b,
                    instruction_type = ty, logical_element = le, frame = fr \<rparr>))"

datatype element =
    Generic GenericInstruction
  | Acquire AcquireInstruction
  | Block PulseIR
and PulseIR = PulseIR (PulseIR_elements: "element list") (PulseIR_alignment: "AlignmentKind option")

text \<open>
  \<^verbatim>\<open>PulseIR.frames\<close>. The loop adds the frame of every generic instruction that has
  one and recurses into nested containers; nothing is raised.
  The Python sets are keyed by \<^verbatim>\<open>__eq__\<close> and \<^verbatim>\<open>__hash__\<close>; the model uses HOL sets.
\<close>

fun frames :: "PulseIR \<Rightarrow> error + Frame set"
  and frames_loop :: "element list \<Rightarrow> Frame set \<Rightarrow> error + Frame set" where
  "frames (PulseIR es a) = frames_loop es {}"
| "frames_loop [] acc = Inr acc"
| "frames_loop (Generic g # es) acc =
     (case frame g of
        Some f \<Rightarrow> frames_loop es (insert f acc)
      | None \<Rightarrow> frames_loop es acc)"
| "frames_loop (Acquire a # es) acc = frames_loop es acc"
| "frames_loop (Block b # es) acc =
     (case frames b of
        Inl e \<Rightarrow> Inl e
      | Inr s \<Rightarrow> frames_loop es (acc \<union> s))"

text \<open>
  \<^verbatim>\<open>PulseIR.logical_elements\<close>. The last branch is a plain \<open>else\<close>: a generic
  instruction without a logical element reaches \<^verbatim>\<open>element.logical_elements()\<close>, an
  attribute that instructions do not have.
\<close>

fun logical_elements :: "PulseIR \<Rightarrow> error + LogicalElement set"
  and logical_elements_loop ::
    "element list \<Rightarrow> LogicalElement set \<Rightarrow> error + LogicalElement set" where
  "logical_elements (PulseIR es a) = logical_elements_loop es {}"
| "logical_elements_loop [] acc = Inr acc"
| "logical_elements_loop (Generic g # es) acc =
     (case logical_element g of
        Some l \<Rightarrow> logical_elements_loop es (insert l acc)
      | None \<Rightarrow> Inl AttributeError)"
| "logical_elements_loop (Acquire a # es) acc = logical_elements_loop es (insert (qubit a) acc)"
| "logical_elements_loop (Block b # es) acc =
     (case logical_elements b of
        Inl e \<Rightarrow> Inl e
      | Inr s \<Rightarrow> logical_elements_loop es (acc \<union> s))"

text \<open>\<^verbatim>\<open>PulseIR.mixed_frames\<close>\<close>

fun mixed_frames :: "PulseIR \<Rightarrow> error + MixedFrame set"
  and mixed_frames_loop :: "element list \<Rightarrow> MixedFrame set \<Rightarrow> error + MixedFrame set" where
  "mixed_frames (PulseIR es a) = mixed_frames_loop es {}"
| "mixed_frames_loop [] acc = Inr acc"
| "mixed_frames_loop (Generic g # es) acc =
     (case (logical_element g, frame g) of
        (Some l, Some f) \<Rightarrow> mixed_frames_loop es (insert (MixedFrame_init l f) acc)
      | _ \<Rightarrow> Inl PulseError)"
| "mixed_frames_loop (Acquire a # es) acc = mixed_frames_loop es acc"
| "mixed_frames_loop (Block b # es) acc =
     (case mixed_frames b of
        Inl e \<Rightarrow> Inl e
      | Inr s \<Rightarrow> mixed_frames_loop es (acc \<union> s))"

text \<open>
  For the statements: the generic and the acquire instructions of a program, nested
  containers included.
\<close>

fun generic_instructions :: "PulseIR \<Rightarrow> GenericInstruction list"
  and generic_instructions_of :: "element list \<Rightarrow> GenericInstruction list" where
  "generic_instructions (PulseIR es a) = generic_instructions_of es"
| "generic_instructions_of [] = []"
| "generic_instructions_of (Generic g # es) = g # generic_instructions_of es"
| "generic_instructions_of (Acquire a # es) = generic_instructions_of es"
| "generic_instructions_of (Block b # es) = generic_instructions b @ generic_instructions_of es"

fun acquire_instructions :: "PulseIR \<Rightarrow> AcquireInstruction list"
  and acquire_instructions_of :: "element list \<Rightarrow> AcquireInstruction list" where
  "acquire_instructions (PulseIR es a) = acquire_instructions_of es"
| "acquire_instructions_of [] = []"
| "acquire_instructions_of (Generic g # es) = acquire_instructions_of es"
| "acquire_instructions_of (Acquire a # es) = a # acquire_instructions_of es"
| "acquire_instructions_of (Block b # es) = acquire_instructions b @ acquire_instructions_of es"

text \<open>A delay on qubit 0 with no frame, as the constructor builds it.\<close>

definition delay0 :: GenericInstruction where
  "delay0 = \<lparr> instr_duration = PyInt 5, instr_operand = Value (PyInt 5), instr_t0 = PyInt 0,
              instruction_type = ''Delay'', logical_element = Some (Qubit 0), frame = None \<rparr>"

text \<open>A play on qubit 1 in its own frame, and an acquisition on qubit 2.\<close>

definition play1 :: GenericInstruction where
  "play1 = \<lparr> instr_duration = PyInt 100, instr_operand = Pulse (PyInt 100), instr_t0 = PyInt 0,
             instruction_type = ''Play'', logical_element = Some (Qubit 1),
             frame = Some (QubitFrame 1) \<rparr>"

definition acquire2 :: AcquireInstruction where
  "acquire2 = \<lparr> instr_duration = PyInt 100, instr_operand = Value (PyInt 100),
                instr_t0 = PyInt 0, qubit = Qubit 2, memory_slot = 0 \<rparr>"

section \<open>The graph library (rustworkx \<open>PyDAG\<close>)\<close>

text \<open>
  The program graph is a \<^verbatim>\<open>rustworkx.PyDAG(multigraph=False)\<close>. The library is not
  part of the repository; the operations the repository calls are modelled after its
  documented behaviour. A graph is a vector of slots (a node index is a position, a
  removed node leaves a vacant slot), the edges in the order they were added (all
  edge payloads are \<open>None\<close> here), and the stack of vacant indices that \<open>add_node\<close>
  reuses before it extends the vector.
\<close>

datatype 'n PyDAG =
  PyDAG (slots: "'n option list") (edge_list: "(nat \<times> nat) list") (free: "nat list")

definition node_indices :: "'n PyDAG \<Rightarrow> nat list" where
  "node_indices g = filter (\<lambda>i. slots g ! i \<noteq> None) [0..<length (slots g)]"

text \<open>\<open>get_node_data\<close>; \<open>None\<close> stands for the library's \<open>IndexError\<close>.\<close>

definition get_node_data :: "'n PyDAG \<Rightarrow> nat \<Rightarrow> 'n option" where
  "get_node_data g i = (if i < length (slots g) then slots g ! i else None)"

text \<open>\<open>nodes()\<close>: the payloads in index order.\<close>

definition nodes :: "'n PyDAG \<Rightarrow> 'n list" where
  "nodes g = List.map_filter (\<lambda>x. x) (slots g)"

definition add_node :: "'n PyDAG \<Rightarrow> 'n \<Rightarrow> 'n PyDAG \<times> nat" where
  "add_node g n =
     (case free g of
        [] \<Rightarrow> (PyDAG (slots g @ [Some n]) (edge_list g) [], length (slots g))
      | i # fs \<Rightarrow> (PyDAG ((slots g)[i := Some n]) (edge_list g) fs, i))"

text \<open>With \<open>multigraph=False\<close> an edge that exists is not added again.\<close>

definition add_edge :: "'n PyDAG \<Rightarrow> nat \<Rightarrow> nat \<Rightarrow> 'n PyDAG" where
  "add_edge g a b =
     (if (a, b) \<in> set (edge_list g) then g
      else PyDAG (slots g) (edge_list g @ [(a, b)]) (free g))"

definition remove_node :: "'n PyDAG \<Rightarrow> nat \<Rightarrow> 'n PyDAG" where
  "remove_node g i =
     (if get_node_data g i = None then g
      else PyDAG ((slots g)[i := None])
                 (filter (\<lambda>(a, b). a \<noteq> i \<and> b \<noteq> i) (edge_list g))
                 (i # free g))"

text \<open>\<open>sequence[i] = n\<close>; reached only for an index that holds a node.\<close>

definition set_node_data :: "'n PyDAG \<Rightarrow> nat \<Rightarrow> 'n \<Rightarrow> 'n PyDAG" where
  "set_node_data g i n = PyDAG ((slots g)[i := Some n]) (edge_list g) (free g)"

text \<open>The edges into and out of a node, the most recently added first.\<close>

definition in_edges :: "'n PyDAG \<Rightarrow> nat \<Rightarrow> (nat \<times> nat) list" where
  "in_edges g i = rev (filter (\<lambda>(a, b). b = i) (edge_list g))"

definition out_edges :: "'n PyDAG \<Rightarrow> nat \<Rightarrow> (nat \<times> nat) list" where
  "out_edges g i = rev (filter (\<lambda>(a, b). a = i) (edge_list g))"

definition predecessor_indices :: "'n PyDAG \<Rightarrow> nat \<Rightarrow> nat list" where
  "predecessor_indices g i = map fst (in_edges g i)"

definition add_edges :: "(nat \<times> nat) list \<Rightarrow> 'n PyDAG \<Rightarrow> 'n PyDAG" where
  "add_edges es g = fold (\<lambda>(a, b) h. add_edge h a b) es g"

text \<open>
  \<open>remove_node_retain_edges\<close>: every predecessor of the node is connected to every
  successor, then the node is removed.
\<close>

definition remove_node_retain_edges :: "'n PyDAG \<Rightarrow> nat \<Rightarrow> 'n PyDAG" where
  "remove_node_retain_edges g i =
     remove_node
       (add_edges (concat (map (\<lambda>(s, _). map (\<lambda>(_, t). (s, t)) (out_edges g i)) (in_edges g i))) g)
       i"

text \<open>
  \<open>substitute_node_with_subgraph(node, other, edge_map_fn)\<close>. The nodes of \<open>other\<close>
  are added in index order, which gives the map from old to new indices; the edges of
  \<open>other\<close> are copied; every edge into or out of \<open>node\<close> is redirected to the new
  node that \<open>edge_map_fn\<close> names (\<open>IndexError\<close> when that node was not copied, no
  edge when it answers \<open>None\<close>); at last \<open>node\<close> is removed.
\<close>

definition copy_nodes :: "'n PyDAG \<Rightarrow> 'n PyDAG \<Rightarrow> 'n PyDAG \<times> (nat \<times> nat) list" where
  "copy_nodes g other =
     fold (\<lambda>i (h, m).
            case get_node_data other i of
              None \<Rightarrow> (h, m)
            | Some n \<Rightarrow> (case add_node h n of (h', j) \<Rightarrow> (h', m @ [(i, j)])))
          (node_indices other) (g, [])"

definition copy_edges :: "(nat \<times> nat) list \<Rightarrow> (nat \<times> nat) list \<Rightarrow> 'n PyDAG \<Rightarrow> 'n PyDAG" where
  "copy_edges m es g =
     fold (\<lambda>(s, t) h.
            case (map_of m s, map_of m t) of
              (Some s', Some t') \<Rightarrow> add_edge h s' t'
            | _ \<Rightarrow> h)
          es g"

fun connect_in ::
  "(nat \<Rightarrow> nat \<Rightarrow> nat option) \<Rightarrow> (nat \<times> nat) list \<Rightarrow> (nat \<times> nat) list \<Rightarrow> 'n PyDAG
   \<Rightarrow> 'n PyDAG \<times> error option" where
  "connect_in f m [] g = (g, None)"
| "connect_in f m ((s, t) # es) g =
     (case f s t of
        None \<Rightarrow> connect_in f m es g
      | Some old \<Rightarrow>
         (case map_of m old of
            None \<Rightarrow> (g, Some IndexError)
          | Some new \<Rightarrow> connect_in f m es (add_edge g s new)))"

fun connect_out ::
  "(nat \<Rightarrow> nat \<Rightarrow> nat option) \<Rightarrow> (nat \<times> nat) list \<Rightarrow> (nat \<times> nat) list \<Rightarrow> 'n PyDAG
   \<Rightarrow> 'n PyDAG \<times> error option" where
  "connect_out f m [] g = (g, None)"
| "connect_out f m ((s, t) # es) g =
     (case f s t of
        None \<Rightarrow> connect_out f m es g
      | Some old \<Rightarrow>
         (case map_of m old of
            None \<Rightarrow> (g, Some IndexError)
          | Some new \<Rightarrow> connect_out f m es (add_edge g new t)))"

definition substitute_node_with_subgraph ::
  "'n PyDAG \<Rightarrow> nat \<Rightarrow> 'n PyDAG \<Rightarrow> (nat \<Rightarrow> nat \<Rightarrow> nat option)
   \<Rightarrow> 'n PyDAG \<times> (error + (nat \<times> nat) list)" where
  "substitute_node_with_subgraph g node other edge_map_fn =
     (if get_node_data g node = None then (g, Inl IndexError)
      else
        (case copy_nodes g other of
           (g1, out_map) \<Rightarrow>
             if out_map = [] then (remove_node g1 node, Inr [])
             else
               (let g2 = copy_edges out_map (edge_list other) g1 in
                (case connect_in edge_map_fn out_map (in_edges g2 node) g2 of
                   (g3, Some e) \<Rightarrow> (g3, Inl e)
                 | (g3, None) \<Rightarrow>
                    (case connect_out edge_map_fn out_map (out_edges g2 node) g3 of
                       (g4, Some e) \<Rightarrow> (g4, Inl e)
                     | (g4, None) \<Rightarrow> (remove_node g4 node, Inr out_map))))))"

section \<open>The program graph (ir/ir.py)\<close>

text \<open>
  Modelled from the spec: the instruction class of the graph representation
  (\<open>qiskit.pulse.Instruction\<close>) is not among the source files. Of an instruction
  the graph code reads its \<open>duration\<close> and compares it with \<open>==\<close>; it is a label
  with an integer duration.
\<close>

datatype Instruction = Instruction (inst_name: string) (inst_duration: int)

text \<open>
  A node holds one of the two sentinel objects, an instruction or a nested graph. A
  \<open>SequenceIR\<close> has the three attributes that \<^verbatim>\<open>__init__\<close> sets: \<open>_alignment\<close>,
  \<open>_sequence\<close> and \<open>_time_table\<close>, here the fields \<open>alignment\<close>, \<open>sequence\<close> and
  \<open>time_table\<close>. The time table is a \<^verbatim>\<open>defaultdict(lambda: None)\<close>: a key that is
  missing reads as \<open>None\<close>, so an entry is unset when the map gives \<open>None\<close>.
\<close>

datatype node = InNode | OutNode | Instr Instruction | Seq SequenceIR
and SequenceIR =
  SequenceIR (alignment: AlignmentKind) (sequence: "node PyDAG") (time_table: "nat \<Rightarrow> int option")

text \<open>\<^verbatim>\<open>SequenceIR.__init__\<close>: a graph with the two sentinels and no edge.\<close>

definition SequenceIR_init :: "AlignmentKind \<Rightarrow> SequenceIR" where
  "SequenceIR_init a = SequenceIR a (PyDAG [Some InNode, Some OutNode] [] []) (\<lambda>_. None)"

text \<open>Assignments to the two mutable attributes.\<close>

definition with_sequence :: "SequenceIR \<Rightarrow> node PyDAG \<Rightarrow> SequenceIR" where
  "with_sequence prog g = SequenceIR (alignment prog) g (time_table prog)"

definition with_time_table :: "SequenceIR \<Rightarrow> (nat \<Rightarrow> int option) \<Rightarrow> SequenceIR" where
  "with_time_table prog tt = SequenceIR (alignment prog) (sequence prog) tt"

text \<open>\<^verbatim>\<open>append\<close> and \<^verbatim>\<open>elements\<close> (\<^verbatim>\<open>self._sequence.nodes()[2:]\<close>)\<close>

definition append :: "SequenceIR \<Rightarrow> node \<Rightarrow> SequenceIR \<times> nat" where
  "append prog element =
     (case add_node (sequence prog) element of (g, i) \<Rightarrow> (with_sequence prog g, i))"

definition elements :: "SequenceIR \<Rightarrow> node list" where
  "elements prog = drop 2 (nodes (sequence prog))"

section \<open>The consolidation pass (compiler/passes/consolidate\_sequences.py)\<close>

definition single_instruction_unnecessary_alignments :: "AlignmentKind \<Rightarrow> bool" where
  "single_instruction_unnecessary_alignments a =
     (a = AlignLeft \<or> a = AlignRight \<or> a = AlignSequential)"

text \<open>
  The attribute read \<^verbatim>\<open>prog.time_table\<close> of the pass. An instance of \<open>SequenceIR\<close>
  has the attributes \<open>_alignment\<close>, \<open>_time_table\<close> and \<open>_sequence\<close>; the class
  declares \<open>_InNode\<close>, \<open>_OutNode\<close>, the properties \<open>alignment\<close>, \<open>inst_targets\<close>,
  \<open>sequence\<close> and \<open>duration\<close>, and the methods \<open>append\<close>, \<open>elements\<close>,
  \<open>scheduled_elements\<close>, \<open>_recursive_scheduled_elements\<close>, \<open>draw\<close>, \<open>flatten\<close> and
  \<open>__eq__\<close>. It has no attribute \<open>time_table\<close> and no \<open>__getattr__\<close>, so the read
  raises \<open>AttributeError\<close> for every graph.
\<close>

definition getattr_time_table :: "SequenceIR \<Rightarrow> error + (nat \<Rightarrow> int option)" where
  "getattr_time_table prog = Inl AttributeError"

text \<open>
  The check that opens \<^verbatim>\<open>_consolidate_recursion\<close>:
  \<^verbatim>\<open>any(prog.time_table[x] is not None for x in prog.sequence.node_indices()
      if x not in (0, 1))\<close>.
  The generator evaluates \<^verbatim>\<open>prog.time_table[x]\<close> for the indices that pass the
  filter only, one after the other, and \<open>any\<close> stops at the first \<open>True\<close>: the read
  is not evaluated for a graph that holds the two sentinels only.
\<close>

fun any_scheduled :: "SequenceIR \<Rightarrow> nat list \<Rightarrow> error + bool" where
  "any_scheduled prog [] = Inr False"
| "any_scheduled prog (x # xs) =
     (if x \<in> {0, 1} then any_scheduled prog xs
      else
        (case getattr_time_table prog of
           Inl e \<Rightarrow> Inl e
         | Inr tt \<Rightarrow> if tt x \<noteq> None then Inr True else any_scheduled prog xs))"

definition edge_map :: "nat \<Rightarrow> nat \<Rightarrow> nat \<Rightarrow> nat option" where
  "edge_map x y node = (if y = node then Some 0 else if x = node then Some 1 else None)"

text \<open>
  The loop over \<open>nodes_mapping\<close> (source lines 100 to 104) that adds the time of the
  replaced node to the entries of the spliced nodes. The right-hand side of the
  assignment is evaluated first: \<^verbatim>\<open>sub_prog.time_table[old_node]\<close>, then the sum
  (\<open>initial_time + None\<close> raises \<open>TypeError\<close>), then \<^verbatim>\<open>prog.time_table\<close>, to which
  the entry is written.
\<close>

fun shift_times ::
  "int \<Rightarrow> SequenceIR \<Rightarrow> (nat \<times> nat) list \<Rightarrow> SequenceIR \<Rightarrow> SequenceIR \<times> error option" where
  "shift_times initial_time sub_prog [] prog = (prog, None)"
| "shift_times initial_time sub_prog ((old_node, new_node) # m) prog =
     (if old_node \<in> {0, 1} then shift_times initial_time sub_prog m prog
      else
        (case getattr_time_table sub_prog of
           Inl e \<Rightarrow> (prog, Some e)
         | Inr sub_table \<Rightarrow>
            (case sub_table old_node of
               None \<Rightarrow> (prog, Some TypeError)
             | Some t \<Rightarrow>
                (case getattr_time_table prog of
                   Inl e \<Rightarrow> (prog, Some e)
                 | Inr tt \<Rightarrow>
                     shift_times initial_time sub_prog m
                       (with_time_table prog (tt(new_node \<mapsto> initial_time + t)))))))"

text \<open>
  Source lines 99 to 105: \<^verbatim>\<open>if (initial_time := prog.time_table[ind]) is not None\<close>,
  the loop above, and \<^verbatim>\<open>del prog.time_table[ind]\<close>.
\<close>

definition splice_times ::
  "SequenceIR \<Rightarrow> nat \<Rightarrow> SequenceIR \<Rightarrow> (nat \<times> nat) list \<Rightarrow> SequenceIR \<times> error option" where
  "splice_times prog ind sub_prog nodes_mapping =
     (case getattr_time_table prog of
        Inl e \<Rightarrow> (prog, Some e)
      | Inr tt \<Rightarrow>
         (case tt ind of
            None \<Rightarrow> (prog, None)
          | Some initial_time \<Rightarrow>
             (case shift_times initial_time sub_prog nodes_mapping prog of
                (prog1, Some e) \<Rightarrow> (prog1, Some e)
              | (prog1, None) \<Rightarrow>
                 (case getattr_time_table prog1 of
                    Inl e \<Rightarrow> (prog1, Some e)
                  | Inr tt1 \<Rightarrow> (with_time_table prog1 (tt1(ind := None)), None)))))"

text \<open>
  Source lines 107 and 108: the copies of the nested sentinels are removed with their
  edges retained. The library's node map raises \<open>IndexError\<close> for an index it does
  not hold.
\<close>

definition remove_sentinel_copies ::
  "SequenceIR \<Rightarrow> (nat \<times> nat) list \<Rightarrow> SequenceIR \<times> error option" where
  "remove_sentinel_copies prog nodes_mapping =
     (case map_of nodes_mapping 0 of
        None \<Rightarrow> (prog, Some IndexError)
      | Some m0 \<Rightarrow>
         (let prog1 = with_sequence prog (remove_node_retain_edges (sequence prog) m0) in
          (case map_of nodes_mapping 1 of
             None \<Rightarrow> (prog1, Some IndexError)
           | Some m1 \<Rightarrow>
               (with_sequence prog1 (remove_node_retain_edges (sequence prog1) m1), None))))"

text \<open>
  The second rewrite of the loop body (source lines 96 to 108): the node is replaced
  by the nodes of the nested graph, then the time table is read and shifted, then the
  copies of the nested sentinels are removed.
\<close>

definition inline_subgraph :: "SequenceIR \<Rightarrow> nat \<Rightarrow> SequenceIR \<Rightarrow> SequenceIR \<times> error option" where
  "inline_subgraph prog ind sub_prog =
     (case substitute_node_with_subgraph (sequence prog) ind (sequence sub_prog)
             (\<lambda>x y. edge_map x y ind) of
        (g, Inl e) \<Rightarrow> (with_sequence prog g, Some e)
      | (g, Inr nodes_mapping) \<Rightarrow>
         (case splice_times (with_sequence prog g) ind sub_prog nodes_mapping of
            (prog1, Some e) \<Rightarrow> (prog1, Some e)
          | (prog1, None) \<Rightarrow> remove_sentinel_copies prog1 nodes_mapping))"

text \<open>
  The first rewrite (source line 84): the payload of the node becomes the single
  element of the nested graph.
\<close>

definition replace_payload :: "SequenceIR \<Rightarrow> nat \<Rightarrow> SequenceIR \<Rightarrow> SequenceIR" where
  "replace_payload prog ind sub_prog =
     with_sequence prog (set_node_data (sequence prog) ind (elements sub_prog ! 0))"

text \<open>
  The rewriting step of the loop body (source lines 80 to 108), on the parent, the
  index of the node and the nested graph as the recursive call left it: the
  single-element rewrite in the \<open>if\<close>, the sequential-in-sequential rewrite in the
  \<open>elif\<close>, and nothing otherwise.
\<close>

definition consolidate_rewrite ::
  "SequenceIR \<Rightarrow> nat \<Rightarrow> SequenceIR \<Rightarrow> SequenceIR \<times> error option" where
  "consolidate_rewrite prog ind sub_prog =
     (if single_instruction_unnecessary_alignments (alignment sub_prog)
         \<and> length (elements sub_prog) = 1
      then (replace_payload prog ind sub_prog, None)
      else if alignment sub_prog = AlignSequential \<and> alignment prog = AlignSequential
      then inline_subgraph prog ind sub_prog
      else (prog, None))"

text \<open>
  The nesting depth of a graph. It bounds the recursion of the pass: no rewrite
  makes a graph deeper.
\<close>

lemma size_slots [termination_simp]:
  "Some x \<in> set (slots g) \<Longrightarrow> f x < Suc (size_PyDAG f g)"
  by (cases g)
     (auto dest!: size_list_estimation'
        [where f = "size_option f" and y = "size_option f (Some x)", OF _ order_refl])

fun depth_node :: "node \<Rightarrow> nat" and depth :: "SequenceIR \<Rightarrow> nat" where
  "depth_node (Seq s) = depth s"
| "depth_node InNode = 0"
| "depth_node OutNode = 0"
| "depth_node (Instr i) = 0"
| "depth (SequenceIR a g tt) =
     Suc (fold max (map (\<lambda>x. case x of None \<Rightarrow> 0 | Some n \<Rightarrow> depth_node n) (slots g)) 0)"

definition bounded :: "nat \<Rightarrow> node PyDAG \<Rightarrow> bool" where
  "bounded d g = (\<forall>n. Some n \<in> set (slots g) \<longrightarrow> depth_node n \<le> d)"

lemma fold_max_le: "fold max xs (a::nat) \<le> d \<longleftrightarrow> a \<le> d \<and> (\<forall>x\<in>set xs. x \<le> d)"
  by (induction xs arbitrary: a) auto

lemma depth_le_Suc: "depth p \<le> Suc d \<longleftrightarrow> bounded d (sequence p)"
proof (cases p)
  case (SequenceIR a g tt)
  have "(\<forall>x\<in>set (slots g). (case x of None \<Rightarrow> 0 | Some n \<Rightarrow> depth_node n) \<le> d)
        \<longleftrightarrow> (\<forall>n. Some n \<in> set (slots g) \<longrightarrow> depth_node n \<le> d)"
    by (auto split: option.splits)
  with SequenceIR show ?thesis
    by (simp add: bounded_def fold_max_le)
qed

lemma depth_Suc: "\<exists>d. depth p = Suc d"
  by (cases p) simp

lemma bounded_mono: "bounded d g \<Longrightarrow> d \<le> e \<Longrightarrow> bounded e g"
  by (auto simp: bounded_def intro: order_trans)

lemma bounded_get_node_data: "bounded d g \<Longrightarrow> get_node_data g i = Some n \<Longrightarrow> depth_node n \<le> d"
  unfolding bounded_def get_node_data_def by (metis nth_mem option.distinct(1))

lemma set_map_filter_id: "set (List.map_filter (\<lambda>x. x) xs) = {n. Some n \<in> set xs}"
  by (induction xs) (auto split: option.splits)

lemma set_nodes: "set (nodes g) = {n. Some n \<in> set (slots g)}"
  by (simp add: nodes_def set_map_filter_id)

lemma bounded_elements:
  assumes "bounded d (sequence p)" and "i < length (elements p)"
  shows "depth_node (elements p ! i) \<le> d"
proof -
  have "elements p ! i \<in> set (elements p)"
    using assms(2) by simp
  then have "elements p ! i \<in> set (nodes (sequence p))"
    unfolding elements_def by (rule in_set_dropD)
  then have "Some (elements p ! i) \<in> set (slots (sequence p))"
    by (simp add: set_nodes)
  with assms(1) show ?thesis
    by (simp add: bounded_def)
qed

lemma slots_add_edge [simp]: "slots (add_edge g a b) = slots g"
  by (simp add: add_edge_def)

lemma slots_add_edges [simp]: "slots (add_edges es g) = slots g"
  unfolding add_edges_def by (induction es arbitrary: g) (auto split: prod.splits)

lemma bounded_update_None:
  "bounded d g \<Longrightarrow> bounded d (PyDAG ((slots g)[i := None]) es fs)"
  unfolding bounded_def using set_update_subset_insert [of "slots g" i None] by auto

lemma bounded_update_Some:
  "bounded d g \<Longrightarrow> depth_node n \<le> d \<Longrightarrow> bounded d (PyDAG ((slots g)[i := Some n]) es fs)"
  unfolding bounded_def using set_update_subset_insert [of "slots g" i "Some n"] by auto

lemma bounded_remove_node: "bounded d g \<Longrightarrow> bounded d (remove_node g i)"
  by (simp add: remove_node_def bounded_update_None)

lemma bounded_remove_node_retain_edges:
  "bounded d g \<Longrightarrow> bounded d (remove_node_retain_edges g i)"
  unfolding remove_node_retain_edges_def
  by (rule bounded_remove_node) (simp add: bounded_def)

lemma bounded_set_node_data:
  "bounded d g \<Longrightarrow> depth_node n \<le> d \<Longrightarrow> bounded d (set_node_data g i n)"
  by (simp add: set_node_data_def bounded_update_Some)

lemma bounded_add_node:
  "bounded d g \<Longrightarrow> depth_node n \<le> d \<Longrightarrow> bounded d (fst (add_node g n))"
  by (cases "free g") (auto simp: add_node_def bounded_update_Some, auto simp: bounded_def)

lemma bounded_copy_nodes_fold:
  "bounded d h \<Longrightarrow> bounded d other \<Longrightarrow>
   bounded d (fst (fold (\<lambda>i (h, m).
            case get_node_data other i of
              None \<Rightarrow> (h, m)
            | Some n \<Rightarrow> (case add_node h n of (h', j) \<Rightarrow> (h', m @ [(i, j)]))) inds (h, m)))"
proof (induction inds arbitrary: h m)
  case Nil
  then show ?case by simp
next
  case (Cons i inds)
  show ?case
  proof (cases "get_node_data other i")
    case None
    with Cons show ?thesis by simp
  next
    case (Some n)
    then have "depth_node n \<le> d"
      using Cons.prems(2) by (simp add: bounded_get_node_data)
    then have "bounded d (fst (add_node h n))"
      using Cons.prems(1) by (simp add: bounded_add_node)
    with Cons.IH [of "fst (add_node h n)" "m @ [(i, snd (add_node h n))]"] Cons.prems(2) Some
    show ?thesis
      by (simp add: case_prod_beta)
  qed
qed

lemma bounded_copy_nodes:
  "bounded d g \<Longrightarrow> bounded d other \<Longrightarrow> bounded d (fst (copy_nodes g other))"
  unfolding copy_nodes_def by (rule bounded_copy_nodes_fold)

lemma slots_copy_edges [simp]: "slots (copy_edges m es g) = slots g"
  unfolding copy_edges_def
  by (induction es arbitrary: g) (auto split: prod.splits option.splits)

lemma slots_connect_in [simp]: "slots (fst (connect_in f m es g)) = slots g"
  by (induction f m es g rule: connect_in.induct) (auto split: option.splits)

lemma slots_connect_out [simp]: "slots (fst (connect_out f m es g)) = slots g"
  by (induction f m es g rule: connect_out.induct) (auto split: option.splits)

lemma bounded_substitute:
  assumes "bounded d g" and "bounded d other"
  shows "bounded d (fst (substitute_node_with_subgraph g node other f))"
proof -
  obtain g1 out_map where c: "copy_nodes g other = (g1, out_map)"
    by (cases "copy_nodes g other")
  have b1: "bounded d g1"
    using bounded_copy_nodes [OF assms] c by simp
  let ?g2 = "copy_edges out_map (edge_list other) g1"
  let ?g3 = "fst (connect_in f out_map (in_edges ?g2 node) ?g2)"
  let ?g4 = "fst (connect_out f out_map (out_edges ?g2 node) ?g3)"
  have b3: "bounded d ?g3" and b4: "bounded d ?g4"
    using b1 by (simp_all add: bounded_def)
  show ?thesis
    using assms(1) b1 b3 b4 c
    by (auto simp: substitute_node_with_subgraph_def Let_def bounded_remove_node
        split: prod.splits option.splits)
qed

lemma sequence_with_sequence [simp]: "sequence (with_sequence p g) = g"
  and alignment_with_sequence [simp]: "alignment (with_sequence p g) = alignment p"
  and time_table_with_sequence [simp]: "time_table (with_sequence p g) = time_table p"
  and sequence_with_time_table [simp]: "sequence (with_time_table p tt) = sequence p"
  and alignment_with_time_table [simp]: "alignment (with_time_table p tt) = alignment p"
  and time_table_with_time_table [simp]: "time_table (with_time_table p tt) = tt"
  by (simp_all add: with_sequence_def with_time_table_def)

lemma sequence_shift_times [simp]:
  "sequence (fst (shift_times t sub m p)) = sequence p"
  by (induction t sub m p rule: shift_times.induct)
     (simp_all split: sum.splits option.splits)

lemma sequence_splice_times [simp]:
  "sequence (fst (splice_times p ind sub m)) = sequence p"
proof -
  have "sequence (fst (shift_times t sub m p)) = sequence p" for t
    by simp
  then have "shift_times t sub m p = (q, e) \<Longrightarrow> sequence q = sequence p" for t q e
    by (metis fst_conv)
  then show ?thesis
    by (auto simp: splice_times_def split: sum.splits option.splits prod.splits)
qed

lemma bounded_remove_sentinel_copies:
  "bounded d (sequence p) \<Longrightarrow> bounded d (sequence (fst (remove_sentinel_copies p m)))"
  by (simp add: remove_sentinel_copies_def Let_def bounded_remove_node_retain_edges
      split: option.splits)

lemma bounded_inline_subgraph:
  assumes "bounded d (sequence p)" and "bounded d (sequence sub)"
  shows "bounded d (sequence (fst (inline_subgraph p ind sub)))"
proof -
  obtain g r where s: "substitute_node_with_subgraph (sequence p) ind (sequence sub)
      (\<lambda>x y. edge_map x y ind) = (g, r)"
    by (cases "substitute_node_with_subgraph (sequence p) ind (sequence sub)
      (\<lambda>x y. edge_map x y ind)")
  have g: "bounded d g"
    using bounded_substitute [OF assms, of ind "\<lambda>x y. edge_map x y ind"] s by simp
  show ?thesis
  proof (cases r)
    case (Inl e)
    with s g show ?thesis by (simp add: inline_subgraph_def)
  next
    case (Inr m)
    obtain p1 e1 where t: "splice_times (with_sequence p g) ind sub m = (p1, e1)"
      by (cases "splice_times (with_sequence p g) ind sub m")
    have "sequence p1 = g"
      using sequence_splice_times [of "with_sequence p g" ind sub m] t by simp
    with g have "bounded d (sequence p1)" by simp
    with s Inr t show ?thesis
      by (cases e1) (simp_all add: inline_subgraph_def bounded_remove_sentinel_copies)
  qed
qed

lemma depth_sub:
  assumes "get_node_data (sequence prog) ind = Some (Seq sub)"
  shows "depth sub < depth prog"
proof -
  obtain d where d: "depth prog = Suc d"
    using depth_Suc by blast
  then have "bounded d (sequence prog)"
    using depth_le_Suc [of prog d] by simp
  from bounded_get_node_data [OF this assms] d show ?thesis
    by simp
qed

lemma depth_branch_empty:
  "depth (with_sequence prog (remove_node_retain_edges (sequence prog) ind)) \<le> depth prog"
proof -
  obtain d where d: "depth prog = Suc d"
    using depth_Suc by blast
  then have "bounded d (sequence prog)"
    using depth_le_Suc [of prog d] by simp
  then show ?thesis
    by (simp add: d depth_le_Suc bounded_remove_node_retain_edges)
qed

lemma depth_branch_keep:
  assumes "get_node_data (sequence prog) ind = Some (Seq sub)" and "depth sub' \<le> depth sub"
  shows "depth (with_sequence prog (set_node_data (sequence prog) ind (Seq sub'))) \<le> depth prog"
proof -
  obtain d where d: "depth prog = Suc d"
    using depth_Suc by blast
  then have b: "bounded d (sequence prog)"
    using depth_le_Suc [of prog d] by simp
  have "depth sub' \<le> d"
    using depth_sub [OF assms(1)] assms(2) d by simp
  with b show ?thesis
    by (simp add: d depth_le_Suc bounded_set_node_data)
qed

lemma depth_branch_single:
  assumes "get_node_data (sequence prog) ind = Some (Seq sub)" and "depth sub' \<le> depth sub"
    and "length (elements sub') = 1"
  shows "depth (replace_payload
                  (with_sequence prog (set_node_data (sequence prog) ind (Seq sub'))) ind sub')
         \<le> depth prog"
proof -
  obtain d where d: "depth prog = Suc d"
    using depth_Suc by blast
  then have b: "bounded d (sequence prog)"
    using depth_le_Suc [of prog d] by simp
  have sub': "depth sub' \<le> d"
    using depth_sub [OF assms(1)] assms(2) d by simp
  then have "bounded d (sequence sub')"
    using depth_le_Suc [of sub' d] by simp
  from bounded_elements [OF this, of 0] assms(3) have "depth_node (elements sub' ! 0) \<le> d"
    by simp
  with b sub' show ?thesis
    by (simp add: d depth_le_Suc replace_payload_def bounded_set_node_data)
qed

lemma depth_branch_inline:
  assumes "get_node_data (sequence prog) ind = Some (Seq sub)" and "depth sub' \<le> depth sub"
  shows "depth (fst (inline_subgraph
                  (with_sequence prog (set_node_data (sequence prog) ind (Seq sub'))) ind sub'))
         \<le> depth prog"
proof -
  obtain d where d: "depth prog = Suc d"
    using depth_Suc by blast
  then have b: "bounded d (sequence prog)"
    using depth_le_Suc [of prog d] by simp
  have sub': "depth sub' \<le> d"
    using depth_sub [OF assms(1)] assms(2) d by simp
  then have bs: "bounded d (sequence sub')"
    using depth_le_Suc [of sub' d] by simp
  have "bounded d (sequence (with_sequence prog (set_node_data (sequence prog) ind (Seq sub'))))"
    using b sub' by (simp add: bounded_set_node_data)
  from bounded_inline_subgraph [OF this bs] show ?thesis
    by (simp add: d depth_le_Suc)
qed

lemma depth_Suc_pos: "0 < depth p"
  using depth_Suc [of p] by auto

lemma depth_branch_rewrite:
  assumes "get_node_data (sequence prog) ind = Some (Seq sub)" and "depth sub' \<le> depth sub"
  shows "depth (fst (consolidate_rewrite
                  (with_sequence prog (set_node_data (sequence prog) ind (Seq sub'))) ind sub'))
         \<le> depth prog"
  using depth_branch_single [OF assms] depth_branch_inline [OF assms] depth_branch_keep [OF assms]
  by (simp add: consolidate_rewrite_def)

text \<open>
  \<^verbatim>\<open>ConsolidateSequences._consolidate_recursion\<close>. The pass mutates the graph it is
  given and may raise after it has mutated: the model returns the graph as the call
  leaves it together with the exception, if any. The loop runs over the node indices
  as they were when it started; the nested graph of a node is the object the parent
  holds, so the parent holds the consolidated nested graph after the recursive call.
\<close>

function consolidate_recursion :: "SequenceIR \<Rightarrow> SequenceIR \<times> error option"
  and consolidate_loop :: "nat list \<Rightarrow> SequenceIR \<Rightarrow> SequenceIR \<times> error option" where
  "consolidate_recursion prog =
     (case any_scheduled prog (node_indices (sequence prog)) of
        Inl e \<Rightarrow> (prog, Some e)
      | Inr scheduled \<Rightarrow>
          if scheduled then (prog, Some PulseCompilerError)
          else consolidate_loop (node_indices (sequence prog)) prog)"
| "consolidate_loop [] prog = (prog, None)"
| "consolidate_loop (ind # inds) prog =
     (if ind \<in> {0, 1} then consolidate_loop inds prog
      else
        (case get_node_data (sequence prog) ind of
           None \<Rightarrow> (prog, Some IndexError)
         | Some (Seq sub_prog) \<Rightarrow>
             if length (elements sub_prog) = 0
             then consolidate_loop inds
                    (with_sequence prog (remove_node_retain_edges (sequence prog) ind))
             else
               (case consolidate_recursion sub_prog of
                  (sub_prog', Some e) \<Rightarrow>
                    (with_sequence prog (set_node_data (sequence prog) ind (Seq sub_prog')), Some e)
                | (sub_prog', None) \<Rightarrow>
                    (case consolidate_rewrite
                            (with_sequence prog (set_node_data (sequence prog) ind (Seq sub_prog')))
                            ind sub_prog' of
                       (prog', Some e) \<Rightarrow> (prog', Some e)
                     | (prog', None) \<Rightarrow> consolidate_loop inds prog'))
         | Some _ \<Rightarrow> consolidate_loop inds prog))"
  by pat_completeness auto

lemma consolidate_depth:
  "consolidate_recursion_consolidate_loop_dom (Inl prog) \<Longrightarrow>
     depth (fst (consolidate_recursion prog)) \<le> depth prog"
  "consolidate_recursion_consolidate_loop_dom (Inr (inds, prog)) \<Longrightarrow>
     depth (fst (consolidate_loop inds prog)) \<le> depth prog"
proof (induction prog and inds prog rule: consolidate_recursion_consolidate_loop.pinduct)
  case (1 prog)
  then show ?case
    by (simp add: consolidate_recursion.psimps split: sum.splits)
next
  case (2 prog)
  then show ?case
    by (simp add: consolidate_loop.psimps)
next
  case (3 ind inds prog)
  note psimp = consolidate_loop.psimps(2) [OF "3.hyps"]
  show ?case
  proof (cases "ind \<in> {0, 1}")
    case True
    with "3.IH"(1) show ?thesis
      by (simp add: psimp)
  next
    case nonsentinel: False
    show ?thesis
    proof (cases "get_node_data (sequence prog) ind")
      case None
      with nonsentinel show ?thesis
        by (simp add: psimp)
    next
      case (Some x2)
      show ?thesis
      proof (cases x2)
        case InNode
        with nonsentinel Some "3.IH"(2) show ?thesis
          by (simp add: psimp)
      next
        case OutNode
        with nonsentinel Some "3.IH"(3) show ?thesis
          by (simp add: psimp)
      next
        case (Instr i)
        with nonsentinel Some "3.IH"(4) show ?thesis
          by (simp add: psimp)
      next
        case (Seq sub)
        with Some have node: "get_node_data (sequence prog) ind = Some (Seq sub)"
          by simp
        show ?thesis
        proof (cases "length (elements sub) = 0")
          case True
          have "depth (fst (consolidate_loop inds
                  (with_sequence prog (remove_node_retain_edges (sequence prog) ind))))
                \<le> depth prog"
            using "3.IH"(5) [OF nonsentinel Some Seq True] depth_branch_empty [of prog ind]
            by (rule order_trans)
          with nonsentinel node True show ?thesis
            by (simp add: psimp)
        next
          case nonempty: False
          obtain sub' y where rec: "consolidate_recursion sub = (sub', y)"
            by (cases "consolidate_recursion sub")
          have sub': "depth sub' \<le> depth sub"
            using "3.IH"(6) [OF nonsentinel Some Seq nonempty] rec by simp
          let ?prog' = "with_sequence prog (set_node_data (sequence prog) ind (Seq sub'))"
          show ?thesis
          proof (cases y)
            case (Some e)
            with nonsentinel node nonempty rec depth_branch_keep [OF node sub']
            show ?thesis
              by (simp add: psimp)
          next
            case None
            obtain q e where q: "consolidate_rewrite ?prog' ind sub' = (q, e)"
              by (cases "consolidate_rewrite ?prog' ind sub'")
            have dq: "depth q \<le> depth prog"
              using depth_branch_rewrite [OF node sub'] q by simp
            have body: "consolidate_loop (ind # inds) prog
                = (case e of Some err \<Rightarrow> (q, Some err) | None \<Rightarrow> consolidate_loop inds q)"
              using nonsentinel node nonempty rec None q
              by (simp add: psimp)
            show ?thesis
            proof (cases e)
              case (Some err)
              with body dq show ?thesis
                by simp
            next
              case no_error: None
              have "depth (fst (consolidate_loop inds q)) \<le> depth prog"
                using "3.IH"(7) [OF nonsentinel Some Seq nonempty rec [symmetric] None
                    q [symmetric] no_error] dq
                by (rule order_trans)
              with body no_error show ?thesis
                by simp
            qed
          qed
        qed
      qed
    qed
  qed
qed

definition consolidate_measure :: "SequenceIR + nat list \<times> SequenceIR \<Rightarrow> nat \<times> nat \<times> nat" where
  "consolidate_measure x =
     (case x of
        Inl p \<Rightarrow> (depth p, Suc 0, 0)
      | Inr (inds, p) \<Rightarrow> (depth p, 0, length inds))"

lemma loop_decreases:
  "depth q \<le> depth p \<Longrightarrow>
   (Inr (inds, q), Inr (ind # inds, p))
     \<in> inv_image (less_than <*lex*> less_than <*lex*> less_than) consolidate_measure"
  by (auto simp: consolidate_measure_def)

termination consolidate_recursion
proof (relation "inv_image (less_than <*lex*> less_than <*lex*> less_than) consolidate_measure",
    goal_cases)
  case 1
  show ?case by auto
next
  case (2 prog)
  show ?case by (simp add: consolidate_measure_def)
next
  case (3 ind inds prog)
  show ?case by (rule loop_decreases) simp
next
  case (4 ind inds prog x2)
  show ?case by (rule loop_decreases) simp
next
  case (5 ind inds prog x2)
  show ?case by (rule loop_decreases) simp
next
  case (6 ind inds prog x2 x3)
  show ?case by (rule loop_decreases) simp
next
  case (7 ind inds prog x2 x4)
  show ?case by (rule loop_decreases) (rule depth_branch_empty)
next
  case (8 ind inds prog x2 x4)
  then have "depth x4 < depth prog"
    by (simp add: depth_sub)
  then show ?case by (simp add: consolidate_measure_def)
next
  case (9 ind inds prog x2 x4 x y xa ya)
  then have "depth x \<le> depth x4"
    using consolidate_depth(1) [of x4] by (metis fst_conv)
  with 9 have "depth (fst (consolidate_rewrite
        (with_sequence prog (set_node_data (sequence prog) ind (Seq x))) ind x)) \<le> depth prog"
    by (simp add: depth_branch_rewrite)
  with 9 show ?case
    by (metis fst_conv loop_decreases)
qed

text \<open>\<^verbatim>\<open>ConsolidateSequences.run\<close>: the pass returns the graph it was given, or raises.\<close>

definition run :: "SequenceIR \<Rightarrow> error + SequenceIR" where
  "run passmanager_ir =
     (case consolidate_recursion passmanager_ir of
        (prog, None) \<Rightarrow> Inr prog
      | (prog, Some e) \<Rightarrow> Inl e)"

section \<open>Queries of the program graph (ir/ir.py)\<close>

text \<open>
  \<^verbatim>\<open>SequenceIR.duration\<close>. The generator handed to \<open>max\<close> computes, for each direct
  predecessor of the output sentinel in turn,
  \<^verbatim>\<open>self._time_table[ind] + self._sequence.get_node_data(ind).duration\<close>: both
  operands are evaluated, then added. A sentinel is a plain \<open>object()\<close> and has no
  attribute \<open>duration\<close> (\<open>AttributeError\<close>, which is not caught); adding \<open>None\<close> raises
  the \<open>TypeError\<close> that the property catches to return \<open>None\<close>.
  \<open>duration_terms\<close> gives \<open>Inr None\<close> for the caught \<open>TypeError\<close>.
\<close>

function node_duration :: "node \<Rightarrow> error + int option"
  and duration :: "SequenceIR \<Rightarrow> error + int option"
  and duration_terms :: "SequenceIR \<Rightarrow> nat list \<Rightarrow> error + int list option" where
  "node_duration InNode = Inl AttributeError"
| "node_duration OutNode = Inl AttributeError"
| "node_duration (Instr i) = Inr (Some (inst_duration i))"
| "node_duration (Seq sub) = duration sub"
| "duration self =
     (let last_nodes = predecessor_indices (sequence self) 1 in
      if last_nodes = [] then Inr None
      else
        (case duration_terms self last_nodes of
           Inl e \<Rightarrow> Inl e
         | Inr None \<Rightarrow> Inr None
         | Inr (Some ts) \<Rightarrow> Inr (Some (fold max (tl ts) (hd ts)))))"
| "duration_terms self [] = Inr (Some [])"
| "duration_terms self (ind # inds) =
     (case get_node_data (sequence self) ind of
        None \<Rightarrow> Inl IndexError
      | Some n \<Rightarrow>
         (case node_duration n of
            Inl e \<Rightarrow> Inl e
          | Inr d \<Rightarrow>
             (case (time_table self ind, d) of
                (Some t, Some d') \<Rightarrow>
                  (case duration_terms self inds of
                     Inl e \<Rightarrow> Inl e
                   | Inr None \<Rightarrow> Inr None
                   | Inr (Some ts) \<Rightarrow> Inr (Some ((t + d') # ts)))
              | _ \<Rightarrow> Inr None)))"
  by pat_completeness auto
termination
proof (relation "inv_image (less_than <*lex*> less_than <*lex*> less_than)
        (\<lambda>x. case x of
                Inl n \<Rightarrow> (depth_node n, 2, 0)
              | Inr (Inl p) \<Rightarrow> (depth p, 1, 0)
              | Inr (Inr (p, inds)) \<Rightarrow> (depth p, 0, length inds))", goal_cases)
  case (4 self ind inds n)
  then have "depth_node n < depth self"
    using depth_sub [of self ind] by (cases n) (auto simp: depth_Suc_pos)
  then show ?case by simp
qed auto

text \<open>
  \<^verbatim>\<open>SequenceIR._recursive_scheduled_elements\<close>: \<^verbatim>\<open>self._time_table[ind] + time_offset\<close>
  raises \<open>TypeError\<close> on an unset entry, which is turned into \<open>PulseError\<close>.
\<close>

function node_scheduled_elements :: "node \<Rightarrow> int \<Rightarrow> error + (int \<times> node) list"
  and recursive_scheduled_elements :: "SequenceIR \<Rightarrow> int \<Rightarrow> error + (int \<times> node) list"
  and recursive_scheduled_loop ::
    "SequenceIR \<Rightarrow> int \<Rightarrow> nat list \<Rightarrow> error + (int \<times> node) list" where
  "node_scheduled_elements (Seq sub) time = recursive_scheduled_elements sub time"
| "node_scheduled_elements InNode time = Inr [(time, InNode)]"
| "node_scheduled_elements OutNode time = Inr [(time, OutNode)]"
| "node_scheduled_elements (Instr i) time = Inr [(time, Instr i)]"
| "recursive_scheduled_elements self time_offset =
     recursive_scheduled_loop self time_offset (node_indices (sequence self))"
| "recursive_scheduled_loop self time_offset [] = Inr []"
| "recursive_scheduled_loop self time_offset (ind # inds) =
     (if ind \<in> {0, 1} then recursive_scheduled_loop self time_offset inds
      else
        (case get_node_data (sequence self) ind of
           None \<Rightarrow> Inl IndexError
         | Some n \<Rightarrow>
            (case time_table self ind of
               None \<Rightarrow> Inl PulseError
             | Some t \<Rightarrow>
                (case node_scheduled_elements n (t + time_offset) of
                   Inl e \<Rightarrow> Inl e
                 | Inr xs \<Rightarrow>
                    (case recursive_scheduled_loop self time_offset inds of
                       Inl e \<Rightarrow> Inl e
                     | Inr ys \<Rightarrow> Inr (xs @ ys))))))"
  by pat_completeness auto
termination
proof (relation "inv_image (less_than <*lex*> less_than <*lex*> less_than)
        (\<lambda>x. case x of
                Inl (n, t) \<Rightarrow> (depth_node n, 2, 0)
              | Inr (Inl (p, off)) \<Rightarrow> (depth p, 1, 0)
              | Inr (Inr (p, off, inds)) \<Rightarrow> (depth p, 0, length inds))", goal_cases)
  case (5 self time_offset ind inds n t)
  then have "depth_node n < depth self"
    using depth_sub [of self ind] by (cases n) (auto simp: depth_Suc_pos)
  then show ?case by simp
qed auto

text \<open>\<^verbatim>\<open>SequenceIR.scheduled_elements\<close>; the sort is Python's stable sort by the time.\<close>

definition direct_scheduled_elements :: "SequenceIR \<Rightarrow> (int option \<times> node) list" where
  "direct_scheduled_elements self =
     concat (map (\<lambda>ind. case get_node_data (sequence self) ind of
                           None \<Rightarrow> []
                         | Some n \<Rightarrow> [(time_table self ind, n)])
                 (filter (\<lambda>ind. ind \<notin> {0, 1}) (node_indices (sequence self))))"

definition scheduled_elements :: "SequenceIR \<Rightarrow> bool \<Rightarrow> error + (int option \<times> node) list" where
  "scheduled_elements self recursive =
     (case (if recursive
            then (case recursive_scheduled_elements self 0 of
                    Inl e \<Rightarrow> Inl e
                  | Inr xs \<Rightarrow> Inr (map (\<lambda>(t, n). (Some t, n)) xs))
            else Inr (direct_scheduled_elements self)) of
        Inl e \<Rightarrow> Inl e
      | Inr listed_elements \<Rightarrow>
          Inr (if list_all (\<lambda>x. fst x \<noteq> None) listed_elements
               then sort_key (\<lambda>x. the (fst x)) listed_elements
               else listed_elements))"

text \<open>
  For the statements: some element of the graph, at any nesting depth, has an unset
  time-table entry.
\<close>

inductive has_unset :: "SequenceIR \<Rightarrow> bool" where
  here: "ind \<in> set (node_indices (sequence p)) \<Longrightarrow> ind \<notin> {0, 1} \<Longrightarrow> time_table p ind = None
         \<Longrightarrow> has_unset p"
| nested: "ind \<in> set (node_indices (sequence p)) \<Longrightarrow> ind \<notin> {0, 1}
         \<Longrightarrow> get_node_data (sequence p) ind = Some (Seq sub) \<Longrightarrow> has_unset sub
         \<Longrightarrow> has_unset p"

text \<open>What makes the loop of the recursive listing fail at one of the given indices.\<close>

definition unset_at :: "SequenceIR \<Rightarrow> nat \<Rightarrow> bool" where
  "unset_at p ind =
     (ind \<notin> {0, 1}
      \<and> (time_table p ind = None
          \<or> (\<exists>sub. get_node_data (sequence p) ind = Some (Seq sub) \<and> has_unset sub)))"

text \<open>A nested graph with an unset entry, as the payload of a node.\<close>

definition unset_inside :: "node \<Rightarrow> bool" where
  "unset_inside n = (case n of Seq sub \<Rightarrow> has_unset sub | _ \<Rightarrow> False)"

section \<open>Example graphs\<close>

text \<open>A graph with one instruction that has been given the time 0.\<close>

definition scheduled_example :: SequenceIR where
  "scheduled_example =
     SequenceIR AlignLeft
       (PyDAG [Some InNode, Some OutNode, Some (Instr (Instruction ''i1'' 100))]
              [(0, 2), (2, 1)] [])
       ((\<lambda>_. None)(2 := Some 0))"

text \<open>
  A sequential graph that holds a sequential graph of two instructions, sequenced; no
  time is set.
\<close>

definition nested_example :: SequenceIR where
  "nested_example =
     SequenceIR AlignSequential
       (PyDAG [Some InNode, Some OutNode,
               Some (Seq (SequenceIR AlignSequential
                            (PyDAG [Some InNode, Some OutNode,
                                    Some (Instr (Instruction ''i1'' 100)),
                                    Some (Instr (Instruction ''i2'' 100))]
                                   [(0, 2), (2, 3), (3, 1)] [])
                            (\<lambda>_. None)))]
              [(0, 2), (2, 1)] [])
       (\<lambda>_. None)"



text \<open>
  A sequential graph that holds, at node 2, the graph with one instruction that has
  been given the time 0.
\<close>

definition scheduled_nested_example :: SequenceIR where
  "scheduled_nested_example =
     SequenceIR AlignSequential
       (PyDAG [Some InNode, Some OutNode, Some (Seq scheduled_example)] [(0, 2), (2, 1)] [])
       (\<lambda>_. None)"

text \<open>
  A sequential graph without elements whose input sentinel is joined to the output
  sentinel: \<^verbatim>\<open>g = SequenceIR(AlignSequential())\<close> and then
  \<^verbatim>\<open>g.sequence.add_edge(0, 1, None)\<close>.
\<close>

definition bridged_example :: SequenceIR where
  "bridged_example =
     with_sequence (SequenceIR_init AlignSequential)
       (add_edge (sequence (SequenceIR_init AlignSequential)) 0 1)"

text \<open>
  A scheduled graph: an instruction at time 0, then a nested graph at time 100 that
  holds one instruction at its local time 5.
\<close>

definition timed_example :: SequenceIR where
  "timed_example =
     SequenceIR AlignSequential
       (PyDAG [Some InNode, Some OutNode,
               Some (Seq (SequenceIR AlignLeft
                            (PyDAG [Some InNode, Some OutNode,
                                    Some (Instr (Instruction ''i2'' 50))]
                                   [(0, 2), (2, 1)] [])
                            ((\<lambda>_. None)(2 := Some 5)))),
               Some (Instr (Instruction ''i1'' 100))]
              [(0, 3), (3, 2), (2, 1)] [])
       ((\<lambda>_. None)(2 := Some 100, 3 := Some 0))"

text \<open>The definitions that evaluating a graph operation unfolds.\<close>

lemmas graph_defs =
  node_indices_def get_node_data_def nodes_def add_node_def add_edge_def remove_node_def
  set_node_data_def in_edges_def out_edges_def predecessor_indices_def add_edges_def
  remove_node_retain_edges_def copy_nodes_def copy_edges_def
  substitute_node_with_subgraph_def SequenceIR_init_def with_sequence_def
  with_time_table_def elements_def


section \<open>Results about the instruction and addressing models\<close>

lemma LogicalElement_eq_refl: "LogicalElement_eq l l"
  by (cases l) auto

lemma Frame_eq_refl: "Frame_eq f f"
  by (cases f) auto

text \<open>
  C1. With \<open>t0\<close> omitted (\<open>None\<close>), the constructor of an instruction with the valid
  duration \<open>10\<close> does not return: evaluating \<^verbatim>\<open>t0 < 0\<close> on \<open>None\<close> raises \<open>TypeError\<close>.
\<close>

theorem BaseIRInstruction_init_t0_None_raises:
  "BaseIRInstruction_init (PyInt 10) (PyInt 10) PyNone = Inl TypeError"
  by (simp add: BaseIRInstruction_init_def)

text \<open>
  C5. A generic frame built without a phase and one built with phase \<open>0\<close> have the
  same name, frequency and \<open>phase\<close> property, yet \<^verbatim>\<open>__eq__\<close> tells them apart, since
  it compares the stored \<open>_phase\<close> (\<open>None\<close> against \<open>0\<close>).
\<close>

theorem GenericFrame_default_phase_unequal:
  "phase (GenericFrame_init ''a'' 1 None) = phase (GenericFrame_init ''a'' 1 (Some 0))
   \<and> \<not> Frame_eq (GenericFrame_init ''a'' 1 None) (GenericFrame_init ''a'' 1 (Some 0))"
  by (simp add: GenericFrame_init_def phase_def)

text \<open>
  C8. A cross-resonance mixed frame and a plain mixed frame over the same logical
  element and frame compare equal in both directions and have the same hash, and the
  equality of two mixed frames does not change when the class of either is changed.
\<close>

theorem CRMixedFrame_eq_MixedFrame:
  "MixedFrame_eq (CRMixedFrame_init l f) (MixedFrame_init l f)
   \<and> MixedFrame_eq (MixedFrame_init l f) (CRMixedFrame_init l f)
   \<and> MixedFrame_hash H (CRMixedFrame_init l f) = MixedFrame_hash H (MixedFrame_init l f)
   \<and> MixedFrame_eq (a \<lparr> mf_class := c \<rparr>) (b \<lparr> mf_class := d \<rparr>) = MixedFrame_eq a b"
  by (simp add: MixedFrame_eq_def MixedFrame_hash_def CRMixedFrame_init_def
      MixedFrame_init_def LogicalElement_eq_refl Frame_eq_refl)

section \<open>Results about the legacy tree container\<close>

lemma frames_loop_eq:
  "frames p = Inr {f. \<exists>g\<in>set (generic_instructions p). frame g = Some f}"
  "frames_loop es acc =
     Inr (acc \<union> {f. \<exists>g\<in>set (generic_instructions_of es). frame g = Some f})"
  by (induction p and es acc rule: frames_frames_loop.induct)
     (auto split: option.splits)

lemma mixed_frames_loop_eq:
  "mixed_frames p =
     (if \<exists>g\<in>set (generic_instructions p). logical_element g = None \<or> frame g = None
      then Inl PulseError
      else Inr ((\<lambda>g. MixedFrame_init (the (logical_element g)) (the (frame g)))
                 ` set (generic_instructions p)))"
  "mixed_frames_loop es acc =
     (if \<exists>g\<in>set (generic_instructions_of es). logical_element g = None \<or> frame g = None
      then Inl PulseError
      else Inr (acc \<union> (\<lambda>g. MixedFrame_init (the (logical_element g)) (the (frame g)))
                 ` set (generic_instructions_of es)))"
  by (induction p and es acc rule: mixed_frames_mixed_frames_loop.induct)
     (auto split: option.splits)

lemma logical_elements_loop_eq:
  "\<forall>g\<in>set (generic_instructions p). logical_element g \<noteq> None \<Longrightarrow>
   logical_elements p =
     Inr ({l. \<exists>g\<in>set (generic_instructions p). logical_element g = Some l}
          \<union> qubit ` set (acquire_instructions p))"
  "\<forall>g\<in>set (generic_instructions_of es). logical_element g \<noteq> None \<Longrightarrow>
   logical_elements_loop es acc =
     Inr (acc \<union> {l. \<exists>g\<in>set (generic_instructions_of es). logical_element g = Some l}
          \<union> qubit ` set (acquire_instructions_of es))"
  by (induction p and es acc rule: logical_elements_logical_elements_loop.induct)
     (auto split: option.splits)

text \<open>
  C6, as stated, fails: a delay is a valid generic instruction without a frame, and on
  the program that holds only this delay \<open>frames\<close> returns the empty set and
  \<open>logical_elements\<close> returns the delay's qubit; only \<open>mixed_frames\<close> raises.
\<close>

theorem frames_skips_unbound_counterexample:
  "GenericInstruction_init ''Delay'' (Value (PyInt 5)) (Some (Qubit 0)) None (PyInt 0)
     = Inr delay0
   \<and> frame delay0 = None
   \<and> frames (PulseIR [Generic delay0] None) = Inr {}
   \<and> logical_elements (PulseIR [Generic delay0] None) = Inr {Qubit 0}
   \<and> mixed_frames (PulseIR [Generic delay0] None) = Inl PulseError"
  by (simp add: GenericInstruction_init_def validate_instruction_def allowed_types_def
      BaseIRInstruction_init_def delay0_def)

text \<open>
  C6, amended. \<open>mixed_frames\<close> raises \<open>PulseError\<close> exactly when some generic
  instruction of the program, nested containers included, lacks a logical element or
  a frame, and otherwise returns the mixed frames of all generic instructions.
  \<open>frames\<close> never raises: it returns the frames of the generic instructions that have
  one. When every generic instruction has a logical element, \<open>logical_elements\<close>
  returns their logical elements together with the qubits of the acquire instructions.
\<close>

theorem PulseIR_queries_collect:
  "mixed_frames p =
     (if \<exists>g\<in>set (generic_instructions p). logical_element g = None \<or> frame g = None
      then Inl PulseError
      else Inr ((\<lambda>g. MixedFrame_init (the (logical_element g)) (the (frame g)))
                 ` set (generic_instructions p)))
   \<and> frames p = Inr {f. \<exists>g\<in>set (generic_instructions p). frame g = Some f}
   \<and> ((\<forall>g\<in>set (generic_instructions p). logical_element g \<noteq> None) \<longrightarrow>
        logical_elements p =
          Inr ({l. \<exists>g\<in>set (generic_instructions p). logical_element g = Some l}
               \<union> qubit ` set (acquire_instructions p)))"
  using mixed_frames_loop_eq(1) [of p] frames_loop_eq(1) [of p] logical_elements_loop_eq(1) [of p]
  by blast

theorem PulseIR_queries_collect_witness:
  "mixed_frames (PulseIR [Generic play1, Block (PulseIR [Acquire acquire2] None)] None)
     = Inr {MixedFrame_init (Qubit 1) (QubitFrame 1)}
   \<and> frames (PulseIR [Generic play1, Block (PulseIR [Acquire acquire2] None)] None)
     = Inr {QubitFrame 1}
   \<and> logical_elements (PulseIR [Generic play1, Block (PulseIR [Acquire acquire2] None)] None)
     = Inr {Qubit 1, Qubit 2}"
  using PulseIR_queries_collect
    [of "PulseIR [Generic play1, Block (PulseIR [Acquire acquire2] None)] None"]
  by (simp add: play1_def acquire2_def insert_commute)

section \<open>Results about the consolidation pass\<close>

lemma get_node_data_node_indices:
  "get_node_data g ind = Some n \<Longrightarrow> ind \<in> set (node_indices g)"
  by (auto simp: node_indices_def get_node_data_def split: if_splits)

lemma any_scheduled_eq:
  "any_scheduled prog xs =
     (if list_ex (\<lambda>x. x \<notin> {0, 1}) xs then Inl AttributeError else Inr False)"
  by (induction xs) (simp_all add: getattr_time_table_def)

lemma consolidate_loop_sentinels:
  "list_all (\<lambda>x. x \<in> {0, 1}) inds \<Longrightarrow> consolidate_loop inds prog = (prog, None)"
  by (induction inds) simp_all

lemma consolidate_recursion_eq:
  "consolidate_recursion prog =
     (prog, if list_ex (\<lambda>x. x \<notin> {0, 1}) (node_indices (sequence prog))
            then Some AttributeError else None)"
proof (cases "list_ex (\<lambda>x. x \<notin> {0, 1}) (node_indices (sequence prog))")
  case True
  then show ?thesis
    by (simp add: any_scheduled_eq)
next
  case False
  then have "list_all (\<lambda>x. x \<in> {0, 1}) (node_indices (sequence prog))"
    by (simp add: list_all_iff list_ex_iff)
  with False show ?thesis
    by (simp add: any_scheduled_eq consolidate_loop_sentinels)
qed

declare consolidate_recursion.simps [simp del]

lemma run_eq:
  "run prog =
     (if list_ex (\<lambda>x. x \<notin> {0, 1}) (node_indices (sequence prog))
      then Inl AttributeError else Inr prog)"
  by (simp add: run_def consolidate_recursion_eq)

text \<open>
  C4. On a graph in which some non-sentinel node has a time, the pass does not get to
  raise \<open>PulseCompilerError\<close> (the spec's AlreadyScheduledError): the check that opens
  it reads \<^verbatim>\<open>prog.time_table\<close>, and that read raises \<open>AttributeError\<close>. The
  invocation leaves the graph as it was (nodes, edges and time table), and the
  exception is what \<open>run\<close> raises, on the graph itself and on a graph that holds it
  as a nested graph.
\<close>

theorem consolidate_scheduled_raises_AttributeError:
  assumes "x \<in> set (node_indices (sequence prog))" and "x \<notin> {0, 1}"
    and "time_table prog x \<noteq> None"
  shows "any_scheduled prog (node_indices (sequence prog)) = Inl AttributeError
    \<and> consolidate_recursion prog = (prog, Some AttributeError)
    \<and> run prog = Inl AttributeError
    \<and> (\<forall>parent ind. ind \<notin> {0, 1} \<and> get_node_data (sequence parent) ind = Some (Seq prog)
          \<longrightarrow> consolidate_recursion parent = (parent, Some AttributeError)
              \<and> run parent = Inl AttributeError)"
proof -
  have here: "list_ex (\<lambda>x. x \<notin> {0, 1}) (node_indices (sequence prog))"
    using assms(1,2) by (auto simp: list_ex_iff)
  have above: "list_ex (\<lambda>x. x \<notin> {0, 1}) (node_indices (sequence parent))"
    if "ind \<notin> {0, 1}" and "get_node_data (sequence parent) ind = Some (Seq prog)"
    for parent ind
    using that get_node_data_node_indices [of "sequence parent" ind] by (auto simp: list_ex_iff)
  have nested: "consolidate_recursion parent = (parent, Some AttributeError)
      \<and> run parent = Inl AttributeError"
    if "ind \<notin> {0, 1} \<and> get_node_data (sequence parent) ind = Some (Seq prog)"
    for parent ind
    using above [of ind parent] that by (simp add: consolidate_recursion_eq run_eq)
  from here have "any_scheduled prog (node_indices (sequence prog)) = Inl AttributeError"
    and "consolidate_recursion prog = (prog, Some AttributeError)"
    and "run prog = Inl AttributeError"
    by (simp_all add: any_scheduled_eq consolidate_recursion_eq run_eq)
  with nested show ?thesis
    by blast
qed

theorem consolidate_scheduled_raises_AttributeError_witness:
  "2 \<in> set (node_indices (sequence scheduled_example))
   \<and> time_table scheduled_example 2 = Some 0
   \<and> consolidate_recursion scheduled_example = (scheduled_example, Some AttributeError)
   \<and> run scheduled_example = Inl AttributeError
   \<and> get_node_data (sequence scheduled_nested_example) 2 = Some (Seq scheduled_example)
   \<and> consolidate_recursion scheduled_nested_example
       = (scheduled_nested_example, Some AttributeError)
   \<and> run scheduled_nested_example = Inl AttributeError"
proof -
  have a: "2 \<in> set (node_indices (sequence scheduled_example))"
    by (simp add: scheduled_example_def node_indices_def)
  have b: "(2::nat) \<notin> {0, 1}"
    by simp
  have c: "time_table scheduled_example 2 = Some 0"
    by (simp add: scheduled_example_def)
  then have c': "time_table scheduled_example 2 \<noteq> None"
    by simp
  have d: "get_node_data (sequence scheduled_nested_example) 2 = Some (Seq scheduled_example)"
    by (simp add: scheduled_nested_example_def get_node_data_def)
  from consolidate_scheduled_raises_AttributeError [OF a b c'] a b c d show ?thesis
    by blast
qed








text \<open>
  C2. The pass does not return a graph for an unscheduled graph that has an element:
  on the sequential graph that holds a sequential graph of two instructions, no time
  set, the check that opens the pass raises \<open>AttributeError\<close> at its read of
  \<^verbatim>\<open>prog.time_table\<close>, and the graph stays as it was. There is no result of one
  run that the result of two runs could equal.
\<close>

theorem consolidate_unscheduled_raises:
  "time_table nested_example = (\<lambda>_. None)
   \<and> run nested_example = Inl AttributeError
   \<and> consolidate_recursion nested_example = (nested_example, Some AttributeError)"
  by (simp add: run_eq consolidate_recursion_eq nested_example_def graph_defs)

text \<open>
  C7. In a graph whose input sentinel is the direct predecessor of the output
  sentinel, that predecessor has no time and no duration; \<open>duration\<close> does not
  return \<open>None\<close> there but raises \<open>AttributeError\<close>.
\<close>

theorem duration_sentinel_predecessor_raises:
  "predecessor_indices (sequence bridged_example) 1 = [0]
   \<and> time_table bridged_example 0 = None
   \<and> duration bridged_example = Inl AttributeError"
  by (simp add: bridged_example_def graph_defs)

section \<open>Results about the queries of the program graph\<close>

lemma node_indices_get_node_data:
  "ind \<in> set (node_indices g) \<Longrightarrow> \<exists>n. get_node_data g ind = Some n"
  by (auto simp: node_indices_def get_node_data_def)

lemma has_unset_iff:
  "has_unset p \<longleftrightarrow> (\<exists>ind\<in>set (node_indices (sequence p)). unset_at p ind)"
proof
  assume "has_unset p"
  then show "\<exists>ind\<in>set (node_indices (sequence p)). unset_at p ind"
  proof cases
    case (here ind)
    then show ?thesis
      unfolding unset_at_def by blast
  next
    case (nested ind sub)
    then show ?thesis
      unfolding unset_at_def by blast
  qed
next
  assume "\<exists>ind\<in>set (node_indices (sequence p)). unset_at p ind"
  then obtain ind where ind: "ind \<in> set (node_indices (sequence p))" "ind \<notin> {0, 1}"
    and cases: "time_table p ind = None
      \<or> (\<exists>sub. get_node_data (sequence p) ind = Some (Seq sub) \<and> has_unset sub)"
    unfolding unset_at_def by blast
  from cases show "has_unset p"
  proof
    assume "time_table p ind = None"
    with ind show ?thesis
      by (rule has_unset.here)
  next
    assume "\<exists>sub. get_node_data (sequence p) ind = Some (Seq sub) \<and> has_unset sub"
    then obtain sub where "get_node_data (sequence p) ind = Some (Seq sub)" "has_unset sub"
      by blast
    with ind show ?thesis
      by (rule has_unset.nested)
  qed
qed

lemma recursive_scheduled_elements_fails:
  "if unset_inside n then node_scheduled_elements n t = Inl PulseError
   else \<exists>xs. node_scheduled_elements n t = Inr xs"
  "if has_unset p then recursive_scheduled_elements p off = Inl PulseError
   else \<exists>xs. recursive_scheduled_elements p off = Inr xs"
  "set inds \<subseteq> set (node_indices (sequence p)) \<Longrightarrow>
     if \<exists>ind\<in>set inds. unset_at p ind then recursive_scheduled_loop p off inds = Inl PulseError
     else \<exists>xs. recursive_scheduled_loop p off inds = Inr xs"
proof (induction n t and p off and p off inds
    rule: node_scheduled_elements_recursive_scheduled_elements_recursive_scheduled_loop.induct)
  case (1 sub time)
  then show ?case
    by (simp add: unset_inside_def del: recursive_scheduled_elements.simps)
next
  case (2 time)
  show ?case
    by (simp add: unset_inside_def)
next
  case (3 time)
  show ?case
    by (simp add: unset_inside_def)
next
  case (4 i time)
  show ?case
    by (simp add: unset_inside_def)
next
  case (5 self time_offset)
  then show ?case
    by (simp add: has_unset_iff)
next
  case (6 self time_offset)
  show ?case
    by simp
next
  case (7 self time_offset ind inds)
  from "7.prems" have sub: "set inds \<subseteq> set (node_indices (sequence self))"
    and mem: "ind \<in> set (node_indices (sequence self))"
    by simp_all
  obtain n where n: "get_node_data (sequence self) ind = Some n"
    using node_indices_get_node_data [OF mem] by blast
  show ?case
  proof (cases "ind \<in> {0, 1}")
    case True
    then have "\<not> unset_at self ind"
      by (simp add: unset_at_def)
    with "7.IH"(1) [OF True sub] True show ?thesis
      by simp
  next
    case nonsentinel: False
    show ?thesis
    proof (cases "time_table self ind")
      case None
      with nonsentinel have "unset_at self ind"
        by (simp add: unset_at_def)
      with nonsentinel n None show ?thesis
        by simp
    next
      case (Some t)
      note node = "7.IH"(2) [OF nonsentinel n Some]
      have here: "unset_at self ind = unset_inside n"
        using nonsentinel n Some by (auto simp: unset_at_def unset_inside_def split: node.splits)
      show ?thesis
      proof (cases "unset_inside n")
        case True
        with node have "node_scheduled_elements n (t + time_offset) = Inl PulseError"
          by simp
        with nonsentinel n Some True here show ?thesis
          by simp
      next
        case False
        with node obtain xs where xs: "node_scheduled_elements n (t + time_offset) = Inr xs"
          by auto
        note rest = "7.IH"(3) [OF nonsentinel n Some xs sub]
        show ?thesis
        proof (cases "\<exists>i\<in>set inds. unset_at self i")
          case True
          with rest have "recursive_scheduled_loop self time_offset inds = Inl PulseError"
            by simp
          with nonsentinel n Some xs True show ?thesis
            by simp
        next
          case none: False
          with rest obtain ys where "recursive_scheduled_loop self time_offset inds = Inr ys"
            by auto
          with nonsentinel n Some xs none False here show ?thesis
            by simp
        qed
      qed
    qed
  qed
qed

lemma direct_scheduled_elements_unset:
  assumes "ind \<in> set (node_indices (sequence p))" and "ind \<notin> {0, 1}"
    and "time_table p ind = None" and "get_node_data (sequence p) ind = Some n"
  shows "(None, n) \<in> set (direct_scheduled_elements p)"
  using assms unfolding direct_scheduled_elements_def
  by (auto intro!: bexI [of _ ind])

text \<open>
  C10. The recursive listing raises \<open>PulseError\<close> (the spec's UnscheduledError)
  whenever some element at some nesting depth, instruction or nested graph, has an
  unset time-table entry, and raises only then; a list it returns holds no \<open>None\<close>
  time. The direct listing returns a list that pairs an element whose entry is unset
  with \<open>None\<close>.
\<close>

theorem recursive_scheduled_elements_unset_fails:
  "(has_unset p \<longrightarrow> scheduled_elements p True = Inl PulseError)
   \<and> (\<not> has_unset p \<longrightarrow> (\<exists>xs. scheduled_elements p True = Inr xs))
   \<and> (\<forall>xs. scheduled_elements p True = Inr xs \<longrightarrow> (\<forall>x\<in>set xs. fst x \<noteq> None))
   \<and> (\<forall>ind n. ind \<in> set (node_indices (sequence p)) \<and> ind \<notin> {0, 1}
          \<and> time_table p ind = None \<and> get_node_data (sequence p) ind = Some n
        \<longrightarrow> (\<exists>xs. scheduled_elements p False = Inr xs \<and> (None, n) \<in> set xs))"
proof (intro conjI allI impI)
  assume "has_unset p"
  then show "scheduled_elements p True = Inl PulseError"
    using recursive_scheduled_elements_fails(2) [of p 0]
    by (simp add: scheduled_elements_def)
next
  assume "\<not> has_unset p"
  then show "\<exists>xs. scheduled_elements p True = Inr xs"
    using recursive_scheduled_elements_fails(2) [of p 0]
    by (auto simp: scheduled_elements_def)
next
  fix xs
  assume "scheduled_elements p True = Inr xs"
  then show "\<forall>x\<in>set xs. fst x \<noteq> None"
    by (auto simp: scheduled_elements_def split: sum.splits if_splits)
next
  fix ind n
  assume a: "ind \<in> set (node_indices (sequence p)) \<and> ind \<notin> {0, 1}
          \<and> time_table p ind = None \<and> get_node_data (sequence p) ind = Some n"
  then have m: "(None, n) \<in> set (direct_scheduled_elements p)"
    using direct_scheduled_elements_unset [of ind p n] by blast
  then have "\<not> list_all (\<lambda>x. fst x \<noteq> None) (direct_scheduled_elements p)"
    by (force simp: list_all_iff)
  with m show "\<exists>xs. scheduled_elements p False = Inr xs \<and> (None, n) \<in> set xs"
    by (simp add: scheduled_elements_def)
qed

theorem recursive_scheduled_elements_unset_fails_witness:
  "has_unset nested_example
   \<and> scheduled_elements nested_example True = Inl PulseError
   \<and> scheduled_elements nested_example False
       = Inr [(None, Seq (SequenceIR AlignSequential
                            (PyDAG [Some InNode, Some OutNode,
                                    Some (Instr (Instruction ''i1'' 100)),
                                    Some (Instr (Instruction ''i2'' 100))]
                                   [(0, 2), (2, 3), (3, 1)] [])
                            (\<lambda>_. None)))]
   \<and> \<not> has_unset timed_example
   \<and> scheduled_elements timed_example True
       = Inr [(Some 0, Instr (Instruction ''i1'' 100)), (Some 105, Instr (Instruction ''i2'' 50))]"
proof -
  have a: "has_unset nested_example"
    by (rule has_unset.here [of 2]) (simp_all add: nested_example_def graph_defs)
  have b: "scheduled_elements timed_example True
       = Inr [(Some 0, Instr (Instruction ''i1'' 100)), (Some 105, Instr (Instruction ''i2'' 50))]"
    by (simp add: timed_example_def scheduled_elements_def graph_defs)
  have c: "scheduled_elements nested_example False
       = Inr [(None, Seq (SequenceIR AlignSequential
                            (PyDAG [Some InNode, Some OutNode,
                                    Some (Instr (Instruction ''i1'' 100)),
                                    Some (Instr (Instruction ''i2'' 100))]
                                   [(0, 2), (2, 3), (3, 1)] [])
                            (\<lambda>_. None)))]"
    by (simp add: nested_example_def scheduled_elements_def direct_scheduled_elements_def
        graph_defs)
  have d: "\<not> has_unset timed_example"
    using recursive_scheduled_elements_unset_fails [of timed_example] b by auto
  from recursive_scheduled_elements_unset_fails [of nested_example] a b c d show ?thesis
    by simp
qed

end
